theory Spec2Isabelle
  imports Complex_Main "HOL-Library.Multiset" "HOL-Library.Sublist"
begin

section \<open>The benchmark script \<open>bench/bench.py\<close>\<close>

text \<open>
  The script times \<open>json.load\<close> on four fixed files, three timed executions per file,
  prints the smallest of the three for each file and then the geometric mean of the four
  smallest times:
  \<^verbatim>\<open>
  sources = ["canada", "citm_catalog", "citylots", "twitter"]

  min_times = []
  for source in sources:
      s = dd(f"""\
      with open("../data/{source}.json") as f:
          json.load(f)""")
      times = repeat(stmt=s, setup="import json", repeat=3, number=1)
      t = reduce(min, times)
      print(f"{source} {t:0.06f} seconds")
      min_times.append(t)

  geo_mean = reduce(lambda a, b: a*b, min_times)**(1/len(min_times))
  print(f"Total (G.M): {geo_mean:0.06f}")
  \<close>

  Numbers. Durations are Python floats, that is IEEE 754 double-precision values. A finite
  float is written as the real number it denotes; comparison, and so \<open>min\<close>, is exact on floats.
  The aggregate is modelled as the script computes it: every product is rounded as the
  hardware rounds it, \<open>1/len\<close> is the rounded quotient, and \<open>**\<close> follows the interpreter's
  case analysis down to its call of the C library's \<open>pow\<close>, whose results belong to the
  environment. Two more readings of the aggregate are kept beside this one, for comparison:
  the part of the double-precision result that the interpreter fixes without the C library,
  and the aggregate in exact arithmetic, where nothing is rounded.
\<close>

subsection \<open>Exceptions\<close>

datatype py_error =
    FileNotFoundError
  | PermissionError
  | JSONDecodeError
  | TypeError
  | ZeroDivisionError
  | ValueError
  | OverflowError

subsection \<open>Built-in and library functions the script calls\<close>

text \<open>\<open>functools.reduce(function, iterable)\<close> with no initial value: the first item starts
  the accumulation, the others are folded in from the left; an empty iterable raises
  \<open>TypeError\<close>.\<close>

fun reduce_py :: "('a \<Rightarrow> 'a \<Rightarrow> 'a) \<Rightarrow> 'a list \<Rightarrow> py_error + 'a" where
  "reduce_py f [] = Inl TypeError"
| "reduce_py f (x # xs) = Inr (foldl f x xs)"

text \<open>\<open>min(a, b)\<close>: the second argument replaces the first only when it is strictly
  smaller.\<close>

definition py_min :: "real \<Rightarrow> real \<Rightarrow> real" where
  "py_min a b = (if b < a then b else a)"

subsection \<open>Formatting with \<open>0.06f\<close>\<close>

definition digit :: "nat \<Rightarrow> char" where
  "digit d = ''0123456789'' ! d"

fun decimal :: "nat \<Rightarrow> string" where
  "decimal n = (if n < 10 then [digit n] else decimal (n div 10) @ [digit (n mod 10)])"

declare decimal.simps [simp del]

definition zfill :: "nat \<Rightarrow> string \<Rightarrow> string" where
  "zfill k s = replicate (k - length s) (CHR ''0'') @ s"

text \<open>Rounding to the nearest integer, a tie going to the even neighbour.\<close>

definition round_half_even :: "real \<Rightarrow> int" where
  "round_half_even x =
     (let f = \<lfloor>x\<rfloor>; d = x - of_int f
      in if d < 1 / 2 then f else if 1 / 2 < d then f + 1 else if even f then f else f + 1)"

text \<open>The number of millionths printed for \<open>x\<close>.\<close>

definition millionths :: "real \<Rightarrow> nat" where
  "millionths x = nat (round_half_even (\<bar>x\<bar> * 1000000))"

text \<open>\<open>format(x, "0.06f")\<close> on a float: sign, integer part, a point and six decimals. The
  leading \<open>0\<close> of the format asks for zero padding to a width that is not given, so it adds
  nothing.\<close>

definition format_06f :: "real \<Rightarrow> string" where
  "format_06f x =
     (if x < 0 then ''-'' else '''') @ decimal (millionths x div 1000000) @ ''.'' @
       zfill 6 (decimal (millionths x mod 1000000))"

subsection \<open>Floats\<close>

text \<open>A double: a finite value, given by the real it denotes (the two zeros are one value,
  as they are for Python's \<open>==\<close>), an infinity with its sign (\<open>True\<close> for the negative one),
  or a NaN.\<close>

datatype pyfloat = Fin real | Inf bool | NaN

text \<open>Rounding a real to the nearest double, a tie going to the even neighbour. Near \<open>x\<close>
  the doubles are \<open>2 powr (e - 52)\<close> apart, \<open>e\<close> the binary exponent of \<open>x\<close> and at least -1022
  (below that the subnormal doubles keep the spacing \<open>2 powr (-1074)\<close>); a result of magnitude
  \<open>2 powr 1024\<close> or more is an infinity.\<close>

definition round_double :: "real \<Rightarrow> pyfloat" where
  "round_double x =
     (if x = 0 then Fin 0
      else
        let e = max \<lfloor>log 2 \<bar>x\<bar>\<rfloor> (- 1022);
            u = 2 powr (of_int e - 52);
            r = of_int (round_half_even (x / u)) * u
        in if 2 powr 1024 \<le> \<bar>r\<bar> then Inf (x < 0) else Fin r)"

text \<open>\<open>a * b\<close> on floats.\<close>

fun float_mul :: "pyfloat \<Rightarrow> pyfloat \<Rightarrow> pyfloat" where
  "float_mul (Fin x) (Fin y) = round_double (x * y)"
| "float_mul (Fin x) (Inf t) = (if x = 0 then NaN else Inf (t \<noteq> (x < 0)))"
| "float_mul (Inf s) (Fin y) = (if y = 0 then NaN else Inf (s \<noteq> (y < 0)))"
| "float_mul (Inf s) (Inf t) = Inf (s \<noteq> t)"
| "float_mul NaN b = NaN"
| "float_mul a NaN = NaN"

text \<open>\<open>1 / n\<close> on integers: the quotient, rounded.\<close>

definition float_truediv :: "int \<Rightarrow> int \<Rightarrow> py_error + pyfloat" where
  "float_truediv a b =
     (if b = 0 then Inl ZeroDivisionError else Inr (round_double (real_of_int a / real_of_int b)))"

text \<open>The value of \<open>x ** y\<close> on two floats: a float, or a complex number when a negative base
  meets a fractional exponent. Nothing the script does with a complex number depends on its
  components.\<close>

datatype py_value = FloatV pyfloat | ComplexV

fun negate :: "pyfloat \<Rightarrow> pyfloat" where
  "negate (Fin x) = Fin (- x)"
| "negate (Inf s) = Inf (\<not> s)"
| "negate NaN = NaN"

definition is_odd_integer :: "real \<Rightarrow> bool" where
  "is_odd_integer y = (of_int \<lfloor>y\<rfloor> = y \<and> odd \<lfloor>y\<rfloor>)"

text \<open>\<open>x ** y\<close> on floats, in the order of the interpreter's case analysis: exponent zero; a
  NaN base; a NaN exponent; an infinite exponent; an infinite base; base zero (a negative
  exponent raises); a negative base with a fractional exponent; a base of magnitude one; and
  at last the C library's \<open>pow\<close> on the magnitude of the base, the result negated for a negative
  base and an odd exponent. \<open>cp\<close> is the C library's \<open>pow\<close> as the interpreter sees it: on a
  positive finite base other than 1 and a finite exponent other than 0 it gives a float, or
  the exception the interpreter raises when the library reports an error.\<close>

fun py_float_pow :: "(real \<Rightarrow> real \<Rightarrow> py_error + pyfloat) \<Rightarrow> pyfloat \<Rightarrow> pyfloat \<Rightarrow> py_error + py_value" where
  "py_float_pow cp v (Fin y) =
     (if y = 0 then Inr (FloatV (Fin 1))
      else
        case v of
          NaN \<Rightarrow> Inr (FloatV NaN)
        | Inf s \<Rightarrow>
            (if 0 < y then Inr (FloatV (Inf (s \<and> is_odd_integer y))) else Inr (FloatV (Fin 0)))
        | Fin x \<Rightarrow>
            (if x = 0 then (if y < 0 then Inl ZeroDivisionError else Inr (FloatV (Fin 0)))
             else if x < 0 \<and> of_int \<lfloor>y\<rfloor> \<noteq> y then Inr ComplexV
             else if \<bar>x\<bar> = 1 then Inr (FloatV (Fin (if x < 0 \<and> is_odd_integer y then - 1 else 1)))
             else
               case cp \<bar>x\<bar> y of
                 Inl e \<Rightarrow> Inl e
               | Inr r \<Rightarrow> Inr (FloatV (if x < 0 \<and> is_odd_integer y then negate r else r))))"
| "py_float_pow cp v NaN =
     (case v of
        NaN \<Rightarrow> Inr (FloatV NaN)
      | Inf s \<Rightarrow> Inr (FloatV NaN)
      | Fin x \<Rightarrow> Inr (FloatV (if x = 1 then Fin 1 else NaN)))"
| "py_float_pow cp v (Inf t) =
     (case v of
        NaN \<Rightarrow> Inr (FloatV NaN)
      | Inf s \<Rightarrow> Inr (FloatV (if t then Fin 0 else Inf False))
      | Fin x \<Rightarrow>
          Inr (FloatV (if \<bar>x\<bar> = 1 then Fin 1
                       else if (\<not> t) = (1 < \<bar>x\<bar>) then Inf False
                       else Fin 0)))"

text \<open>\<open>format(x, "0.06f")\<close> on any float: an infinity and a NaN are printed by name. On a
  complex number the format is refused: zero padding is not allowed in a complex format
  specifier.\<close>

fun format_float :: "pyfloat \<Rightarrow> string" where
  "format_float (Fin x) = format_06f x"
| "format_float (Inf s) = (if s then ''-inf'' else ''inf'')"
| "format_float NaN = ''nan''"

fun format_value :: "py_value \<Rightarrow> py_error + string" where
  "format_value (FloatV v) = Inr (format_float v)"
| "format_value ComplexV = Inl ValueError"

subsection \<open>The environment and the state of a run\<close>

text \<open>
  What the script does not decide itself: what opening and reading a path gives (an error
  or the text), whether \<open>json.load\<close> accepts a text (\<open>None\<close>) or raises, the duration
  measured for the \<open>i\<close>-th timed execution of the run, and the C library's \<open>pow\<close>.
\<close>

record world =
  open_read :: "string \<Rightarrow> py_error + string"
  json_load :: "string \<Rightarrow> py_error option"
  elapsed :: "nat \<Rightarrow> real"
  c_pow :: "real \<Rightarrow> real \<Rightarrow> py_error + pyfloat"

text \<open>The list \<open>min_times\<close>, the lines printed so far, and the paths of the timed executions
  made so far, in order.\<close>

record pstate =
  min_times :: "real list"
  stdout :: "string list"
  trials :: "string list"

definition init :: pstate where
  "init = \<lparr>min_times = [], stdout = [], trials = []\<rparr>"

subsection \<open>The script\<close>

definition sources :: "string list" where
  "sources = [''canada'', ''citm_catalog'', ''citylots'', ''twitter'']"

text \<open>The path inside the timed statement.\<close>

definition path :: "string \<Rightarrow> string" where
  "path source = ''../data/'' @ source @ ''.json''"

text \<open>One timed execution of the statement (\<open>number=1\<close>): open the file, hand it to
  \<open>json.load\<close>, drop the result. An exception leaves the timer; otherwise the duration of
  this execution is returned.\<close>

definition timeit :: "world \<Rightarrow> string \<Rightarrow> pstate \<Rightarrow> (py_error + real) \<times> pstate" where
  "timeit w p st =
     (let st' = st\<lparr>trials := trials st @ [p]\<rparr>
      in case open_read w p of
           Inl e \<Rightarrow> (Inl e, st')
         | Inr txt \<Rightarrow>
             (case json_load w txt of
                Some e \<Rightarrow> (Inl e, st')
              | None \<Rightarrow> (Inr (elapsed w (length (trials st))), st')))"

text \<open>\<open>timeit.repeat(..., repeat=r, number=1)\<close>: the list of \<open>r\<close> durations, one timed
  execution after the other; the first exception ends it.\<close>

fun repeat_py :: "world \<Rightarrow> string \<Rightarrow> nat \<Rightarrow> pstate \<Rightarrow> (py_error + real list) \<times> pstate" where
  "repeat_py w p 0 st = (Inr [], st)"
| "repeat_py w p (Suc r) st =
     (case timeit w p st of
        (Inl e, st') \<Rightarrow> (Inl e, st')
      | (Inr t, st') \<Rightarrow>
          (case repeat_py w p r st' of
             (Inl e, st'') \<Rightarrow> (Inl e, st'')
           | (Inr ts, st'') \<Rightarrow> (Inr (t # ts), st'')))"

text \<open>The line printed for a source.\<close>

definition source_line :: "string \<Rightarrow> real \<Rightarrow> string" where
  "source_line source t = source @ '' '' @ format_06f t @ '' seconds''"

text \<open>The body of the \<open>for\<close> loop (\<open>tms\<close> is the script's \<open>times\<close>).\<close>

definition loop_body :: "world \<Rightarrow> string \<Rightarrow> pstate \<Rightarrow> (py_error + unit) \<times> pstate" where
  "loop_body w source st =
     (case repeat_py w (path source) 3 st of
        (Inl e, st') \<Rightarrow> (Inl e, st')
      | (Inr tms, st') \<Rightarrow>
          (case reduce_py py_min tms of
             Inl e \<Rightarrow> (Inl e, st')
           | Inr t \<Rightarrow>
               (Inr (), st'\<lparr>min_times := min_times st' @ [t],
                             stdout := stdout st' @ [source_line source t]\<rparr>)))"

fun for_loop :: "world \<Rightarrow> string list \<Rightarrow> pstate \<Rightarrow> (py_error + unit) \<times> pstate" where
  "for_loop w [] st = (Inr (), st)"
| "for_loop w (source # rest) st =
     (case loop_body w source st of
        (Inl e, st') \<Rightarrow> (Inl e, st')
      | (Inr u, st') \<Rightarrow> for_loop w rest st')"

text \<open>The expression \<open>reduce(lambda a, b: a*b, min_times)**(1/len(min_times))\<close>, its operands
  evaluated from left to right.\<close>

definition geo_mean :: "(real \<Rightarrow> real \<Rightarrow> py_error + pyfloat) \<Rightarrow> real list \<Rightarrow> py_error + py_value" where
  "geo_mean cp ts =
     (case reduce_py float_mul (map Fin ts) of
        Inl e \<Rightarrow> Inl e
      | Inr p \<Rightarrow>
          (case float_truediv 1 (int (length ts)) of
             Inl e \<Rightarrow> Inl e
           | Inr ex \<Rightarrow> py_float_pow cp p ex))"

definition total_line :: "string \<Rightarrow> string" where
  "total_line txt = ''Total (G.M): '' @ txt"

text \<open>The script on a list of sources: the uncaught exception, if any, and the final
  state. \<open>main\<close> is the script itself.\<close>

definition run :: "world \<Rightarrow> string list \<Rightarrow> py_error option \<times> pstate" where
  "run w srcs =
     (case for_loop w srcs init of
        (Inl e, st) \<Rightarrow> (Some e, st)
      | (Inr u, st) \<Rightarrow>
          (case geo_mean (c_pow w) (min_times st) of
             Inl e \<Rightarrow> (Some e, st)
           | Inr g \<Rightarrow>
               (case format_value g of
                  Inl e \<Rightarrow> (Some e, st)
                | Inr txt \<Rightarrow> (None, st\<lparr>stdout := stdout st @ [total_line txt]\<rparr>))))"

definition main :: "world \<Rightarrow> py_error option \<times> pstate" where
  "main w = run w sources"

text \<open>The interpreter ends with status 0 when the script runs to its end and with status 1
  on an uncaught exception.\<close>

definition exit_status :: "py_error option \<times> pstate \<Rightarrow> nat" where
  "exit_status r = (case fst r of None \<Rightarrow> 0 | Some e \<Rightarrow> 1)"

subsection \<open>The aggregate where the C library is not called\<close>

text \<open>\<open>x ** y\<close> on floats, in the cases of a finite exponent where the interpreter fixes the
  result itself: exponent zero, base zero (a negative exponent raises), base one. \<open>None\<close>
  stands for every result not fixed here: with a finite exponent it is what the C library's
  \<open>pow\<close> returns, or a complex number for a negative base.\<close>

fun float_pow :: "pyfloat \<Rightarrow> pyfloat \<Rightarrow> (py_error + pyfloat) option" where
  "float_pow x (Fin y) =
     (if y = 0 then Some (Inr (Fin 1))
      else if x = Fin 0 then (if y < 0 then Some (Inl ZeroDivisionError) else Some (Inr (Fin 0)))
      else if x = Fin 1 then Some (Inr (Fin 1))
      else None)"
| "float_pow x (Inf t) = None"
| "float_pow x NaN = None"

text \<open>The expression \<open>reduce(lambda a, b: a*b, min_times)**(1/len(min_times))\<close> with it.\<close>

definition geo_mean_ieee :: "pyfloat list \<Rightarrow> (py_error + pyfloat) option" where
  "geo_mean_ieee ts =
     (case reduce_py float_mul ts of
        Inl e \<Rightarrow> Some (Inl e)
      | Inr p \<Rightarrow>
          (case float_truediv 1 (int (length ts)) of
             Inl e \<Rightarrow> Some (Inl e)
           | Inr ex \<Rightarrow> float_pow p ex))"

subsection \<open>The aggregate in exact arithmetic\<close>

text \<open>Here a float is the real number it denotes and \<open>*\<close>, \<open>/\<close> and \<open>**\<close> are exact: no rounding,
  no overflow, no underflow. A power is a real, or a complex number when a negative base
  meets a fractional exponent.\<close>

datatype py_num = PyFloat real | PyComplex complex

fun is_PyComplex :: "py_num \<Rightarrow> bool" where
  "is_PyComplex (PyFloat x) = False"
| "is_PyComplex (PyComplex z) = True"

definition truediv_exact :: "int \<Rightarrow> int \<Rightarrow> py_error + real" where
  "truediv_exact a b = (if b = 0 then Inl ZeroDivisionError else Inr (real_of_int a / real_of_int b))"

text \<open>The cases of \<open>x ** y\<close> that are left on finite operands: exponent zero; base zero (a
  negative exponent raises); negative base, where a fractional exponent gives the complex
  power \<open>|x|\<^sup>y (cos (\<pi>y) + i sin (\<pi>y))\<close> and an integral one keeps the sign of an odd power;
  positive base.\<close>

definition pow_exact :: "real \<Rightarrow> real \<Rightarrow> py_error + py_num" where
  "pow_exact x y =
     (if y = 0 then Inr (PyFloat 1)
      else if x = 0 then (if y < 0 then Inl ZeroDivisionError else Inr (PyFloat 0))
      else if x < 0 then
        (if y \<noteq> of_int \<lfloor>y\<rfloor>
         then Inr (PyComplex (Complex ((\<bar>x\<bar> powr y) * cos (pi * y)) ((\<bar>x\<bar> powr y) * sin (pi * y))))
         else Inr (PyFloat ((if odd \<lfloor>y\<rfloor> then - 1 else 1) * (\<bar>x\<bar> powr y))))
      else Inr (PyFloat (x powr y)))"

definition geo_mean_exact :: "real list \<Rightarrow> py_error + py_num" where
  "geo_mean_exact ts =
     (case reduce_py (\<lambda>a b. a * b) ts of
        Inl e \<Rightarrow> Inl e
      | Inr p \<Rightarrow>
          (case truediv_exact 1 (int (length ts)) of
             Inl e \<Rightarrow> Inl e
           | Inr ex \<Rightarrow> pow_exact p ex))"

section \<open>Notions used in the statements\<close>

text \<open>What one execution of the timed statement on a path raises, if anything.\<close>

definition load_error :: "world \<Rightarrow> string \<Rightarrow> py_error option" where
  "load_error w p = (case open_read w p of Inl e \<Rightarrow> Some e | Inr txt \<Rightarrow> json_load w txt)"

text \<open>The smallest of the three durations measured from the \<open>n\<close>-th timed execution on, taken the way \<open>reduce(min, times)\<close> takes it.\<close>

definition best :: "world \<Rightarrow> nat \<Rightarrow> real" where
  "best w n = py_min (py_min (elapsed w n) (elapsed w (n + 1))) (elapsed w (n + 2))"

text \<open>The state after the loop body has measured one source whose file loads.\<close>

definition measured_one :: "world \<Rightarrow> string \<Rightarrow> pstate \<Rightarrow> pstate" where
  "measured_one w s st =
     \<lparr>min_times = min_times st @ [best w (length (trials st))],
      stdout = stdout st @ [source_line s (best w (length (trials st)))],
      trials = trials st @ replicate 3 (path s)\<rparr>"

text \<open>The state after the loop has measured a list of sources whose files all load.\<close>

fun measured :: "world \<Rightarrow> string list \<Rightarrow> pstate \<Rightarrow> pstate" where
  "measured w [] st = st"
| "measured w (s # rest) st = measured w rest (measured_one w s st)"

text \<open>The double that is the power of two with exponent \<open>k\<close> (for \<open>k\<close> from -1022 to 1023).\<close>

definition pw2 :: "int \<Rightarrow> pyfloat" where
  "pw2 k = Fin (2 powr of_int k)"

text \<open>A C library whose \<open>pow\<close> is correctly rounded and never reports an error.\<close>

definition correctly_rounded_pow :: "real \<Rightarrow> real \<Rightarrow> py_error + pyfloat" where
  "correctly_rounded_pow x y = Inr (round_double (x powr y))"

text \<open>A float that is not negative: a finite value of zero or more, the positive infinity, or a NaN.\<close>

fun float_nonneg :: "pyfloat \<Rightarrow> bool" where
  "float_nonneg (Fin x) = (0 \<le> x)"
| "float_nonneg (Inf s) = (\<not> s)"
| "float_nonneg NaN = True"

text \<open>A positive float.\<close>

fun float_pos :: "pyfloat \<Rightarrow> bool" where
  "float_pos (Fin x) = (0 < x)"
| "float_pos (Inf s) = (\<not> s)"
| "float_pos NaN = False"

text \<open>An evaluation in exact arithmetic that raises nothing and gives a complex number.\<close>

fun silently_complex :: "py_error + py_num \<Rightarrow> bool" where
  "silently_complex (Inl e) = False"
| "silently_complex (Inr g) = is_PyComplex g"

text \<open>Two environments to run the script in: one where every file loads, one where \<open>citylots.json\<close> is missing. In both the C library's \<open>pow\<close> is correctly rounded.\<close>

definition samples0 :: "real list" where
  "samples0 = [1/2, 1/4, 3/4, 2, 1, 3, 4, 8, 9/2, 16, 32, 24]"

definition w0 :: world where
  "w0 = \<lparr>open_read = (\<lambda>p. Inr ''{}''), json_load = (\<lambda>txt. None),
          elapsed = (\<lambda>i. if i < 12 then samples0 ! i else 1),
          c_pow = correctly_rounded_pow\<rparr>"

definition w1 :: world where
  "w1 = \<lparr>open_read = (\<lambda>p. if p = ''../data/citylots.json'' then Inl FileNotFoundError else Inr ''{}''),
          json_load = (\<lambda>txt. None),
          elapsed = (\<lambda>i. if i < 12 then samples0 ! i else 1),
          c_pow = correctly_rounded_pow\<rparr>"




text \<open>The product of a list of minimum times, taken as the script takes it, is an infinity.\<close>

definition overflowed :: "real list \<Rightarrow> bool" where
  "overflowed ts =
     (case reduce_py float_mul (map Fin ts) of
        Inl e \<Rightarrow> False
      | Inr p \<Rightarrow> (case p of Fin x \<Rightarrow> False | Inf s \<Rightarrow> True | NaN \<Rightarrow> False))"

text \<open>An evaluation that raises nothing and gives a complex number or a NaN.\<close>

fun complex_or_nan :: "py_error + py_value \<Rightarrow> bool" where
  "complex_or_nan (Inl e) = False"
| "complex_or_nan (Inr ComplexV) = True"
| "complex_or_nan (Inr (FloatV v)) = (v = NaN)"

section \<open>Lemmas\<close>

lemma py_min_eq_min: "py_min a b = min a b"
  by (simp add: py_min_def min_def)

lemma foldl_py_min_le: "foldl py_min x xs \<le> x \<and> (\<forall>y\<in>set xs. foldl py_min x xs \<le> y)"
proof (induction xs arbitrary: x)
  case Nil
  show ?case by simp
next
  case (Cons z zs)
  have a: "foldl py_min (py_min x z) zs \<le> py_min x z"
    and b: "\<forall>y\<in>set zs. foldl py_min (py_min x z) zs \<le> y"
    using Cons.IH [of "py_min x z"] by simp_all
  have "py_min x z \<le> x" and "py_min x z \<le> z"
    by (simp_all add: py_min_def)
  with a b show ?case by auto
qed

lemma foldl_py_min_mem: "foldl py_min x xs \<in> set (x # xs)"
proof (induction xs arbitrary: x)
  case Nil
  show ?case by simp
next
  case (Cons z zs)
  have "py_min x z = x \<or> py_min x z = z"
    by (simp add: py_min_def)
  with Cons.IH [of "py_min x z"] show ?case by auto
qed

lemma foldl_mult: "foldl (\<lambda>a b. a * b) (x::real) xs = x * prod_list xs"
  by (induction xs arbitrary: x) (simp_all add: mult.assoc)

lemma timeit_ok:
  "load_error w p = None \<Longrightarrow>
   timeit w p st = (Inr (elapsed w (length (trials st))), st\<lparr>trials := trials st @ [p]\<rparr>)"
  by (simp add: timeit_def load_error_def Let_def split: sum.splits option.splits)

lemma timeit_fail:
  "load_error w p = Some e \<Longrightarrow> timeit w p st = (Inl e, st\<lparr>trials := trials st @ [p]\<rparr>)"
  by (simp add: timeit_def load_error_def Let_def split: sum.splits option.splits)

lemma repeat_py_ok:
  "load_error w p = None \<Longrightarrow>
   repeat_py w p r st =
     (Inr (map (elapsed w) [length (trials st) ..< length (trials st) + r]),
      st\<lparr>trials := trials st @ replicate r p\<rparr>)"
proof (induction r arbitrary: st)
  case 0
  show ?case by simp
next
  case (Suc r)
  let ?st1 = "st\<lparr>trials := trials st @ [p]\<rparr>"
  have t: "timeit w p st = (Inr (elapsed w (length (trials st))), ?st1)"
    using Suc.prems by (rule timeit_ok)
  have r: "repeat_py w p r ?st1 =
      (Inr (map (elapsed w) [Suc (length (trials st)) ..< Suc (length (trials st)) + r]),
       st\<lparr>trials := trials st @ p # replicate r p\<rparr>)"
    using Suc.IH [OF Suc.prems, of ?st1] by simp
  show ?case
    by (simp add: t r upt_conv_Cons del: upt_Suc)
qed

lemma repeat_py_fail:
  "load_error w p = Some e \<Longrightarrow>
   repeat_py w p (Suc r) st = (Inl e, st\<lparr>trials := trials st @ [p]\<rparr>)"
  by (simp add: timeit_fail)

lemma upt_three: "[n ..< n + 3] = [n, n + 1, n + 2]"
  by (simp add: eval_nat_numeral upt_conv_Cons del: upt_Suc)

lemma loop_body_ok:
  "load_error w (path s) = None \<Longrightarrow> loop_body w s st = (Inr (), measured_one w s st)"
  by (simp add: loop_body_def repeat_py_ok upt_three best_def measured_one_def)

lemma loop_body_fail:
  "load_error w (path s) = Some e \<Longrightarrow>
   loop_body w s st = (Inl e, st\<lparr>trials := trials st @ [path s]\<rparr>)"
  by (simp add: loop_body_def numeral_3_eq_3 timeit_fail)

lemma for_loop_ok:
  "\<forall>s\<in>set srcs. load_error w (path s) = None \<Longrightarrow>
   for_loop w srcs st = (Inr (), measured w srcs st)"
  by (induction srcs arbitrary: st) (simp_all add: loop_body_ok)

lemma for_loop_fail:
  "\<forall>s\<in>set pre. load_error w (path s) = None \<Longrightarrow> load_error w (path s) = Some e \<Longrightarrow>
   for_loop w (pre @ s # post) st =
     (Inl e, (measured w pre st)\<lparr>trials := trials (measured w pre st) @ [path s]\<rparr>)"
  by (induction pre arbitrary: st) (simp_all add: loop_body_ok loop_body_fail)

lemma trials_measured:
  "trials (measured w srcs st) = trials st @ concat (map (\<lambda>s. replicate 3 (path s)) srcs)"
  by (induction srcs arbitrary: st) (simp_all add: measured_one_def)

lemma length_trials_measured:
  "length (trials (measured w srcs st)) = length (trials st) + 3 * length srcs"
  by (induction srcs arbitrary: st) (simp_all add: measured_one_def)

lemma measured_snoc: "measured w (srcs @ [s]) st = measured_one w s (measured w srcs st)"
  by (induction srcs arbitrary: st) simp_all

lemma min_times_measured:
  "min_times (measured w srcs st) =
     min_times st @ map (\<lambda>i. best w (length (trials st) + 3 * i)) [0 ..< length srcs]"
  by (induction srcs rule: rev_induct)
     (simp_all add: measured_snoc measured_one_def length_trials_measured)

lemma stdout_measured:
  "stdout (measured w srcs st) =
     stdout st @
     map (\<lambda>i. source_line (srcs ! i) (best w (length (trials st) + 3 * i))) [0 ..< length srcs]"
  by (induction srcs rule: rev_induct)
     (simp_all add: measured_snoc measured_one_def length_trials_measured nth_append)

lemma round_half_even_of_int: "round_half_even (of_int n) = n"
  by (simp add: round_half_even_def)

lemma two_powr_52: "(2::real) powr 52 = of_int (2 ^ 52)"
proof -
  have "(2::real) powr (real (52::nat)) = 2 ^ 52"
    by (rule powr_realpow) simp
  then show ?thesis by simp
qed

lemma round_double_pow2:
  assumes "- 1022 \<le> k" and "k \<le> 1023"
  shows "round_double (2 powr of_int k) = Fin (2 powr of_int k)"
proof -
  let ?x = "(2::real) powr of_int k"
  have pos: "0 < ?x" by simp
  have lg: "\<lfloor>log 2 \<bar>?x\<bar>\<rfloor> = k" by simp
  have e: "max \<lfloor>log 2 \<bar>?x\<bar>\<rfloor> (- 1022) = k" using assms(1) by (simp add: lg)
  have q: "?x / 2 powr (of_int k - 52) = of_int (2 ^ 52)"
  proof -
    have "?x / 2 powr (of_int k - 52) = 2 powr (of_int k - (of_int k - 52))"
      by (simp only: powr_diff)
    also have "\<dots> = 2 powr 52" by simp
    finally show ?thesis by (simp only: two_powr_52)
  qed
  have r: "of_int (round_half_even (?x / 2 powr (of_int k - 52))) * 2 powr (of_int k - 52) = ?x"
  proof -
    have "of_int (round_half_even (?x / 2 powr (of_int k - 52))) * 2 powr (of_int k - 52)
          = (?x / 2 powr (of_int k - 52)) * 2 powr (of_int k - 52)"
      unfolding q round_half_even_of_int ..
    also have "\<dots> = ?x" by simp
    finally show ?thesis .
  qed
  have "?x < 2 powr 1024"
    by (rule powr_less_mono) (use assms(2) in simp_all)
  with pos have small: "\<not> 2 powr 1024 \<le> \<bar>?x\<bar>" by linarith
  have nz: "?x \<noteq> 0" by simp
  show ?thesis
    unfolding round_double_def Let_def e r using nz small by simp
qed

lemma round_double_tiny:
  assumes "k < - 1075"
  shows "round_double (2 powr of_int k) = Fin 0"
proof -
  let ?x = "(2::real) powr of_int k"
  have lg: "\<lfloor>log 2 \<bar>?x\<bar>\<rfloor> = k" by simp
  have e: "max \<lfloor>log 2 \<bar>?x\<bar>\<rfloor> (- 1022) = - 1022" using assms by (simp add: lg)
  have q: "?x / 2 powr (of_int (- 1022) - 52) = 2 powr (of_int k + 1074)"
  proof -
    have "?x / 2 powr (of_int (- 1022) - 52) = 2 powr (of_int k - (of_int (- 1022) - 52))"
      by (simp only: powr_diff)
    also have "\<dots> = 2 powr (of_int k + 1074)" by simp
    finally show ?thesis .
  qed
  have h: "(2::real) powr (- 1) = 1 / 2"
    by (simp add: powr_minus_divide)
  have "(2::real) powr (of_int k + 1074) < 2 powr (- 1)"
    by (rule powr_less_mono) (use assms in simp_all)
  then have lt: "(2::real) powr (of_int k + 1074) < 1 / 2"
    by (simp only: h)
  have gt: "0 < (2::real) powr (of_int k + 1074)" by simp
  have fl: "\<lfloor>(2::real) powr (of_int k + 1074)\<rfloor> = 0"
    using lt gt by (simp add: floor_eq_iff)
  have z: "round_half_even (2 powr (of_int k + 1074)) = 0"
    using lt by (simp add: round_half_even_def Let_def fl)
  have nz: "?x \<noteq> 0" by simp
  show ?thesis
    unfolding round_double_def Let_def e q z using nz by simp
qed

lemma float_pos_pw2: "float_pos (pw2 k)"
  by (simp add: pw2_def)

lemma pw2_nonzero: "pw2 k \<noteq> Fin 0"
  by (simp add: pw2_def)

lemma pw2_zero: "pw2 0 = Fin 1"
  by (simp add: pw2_def)

lemma float_mul_pw2:
  assumes "- 1022 \<le> a + b" and "a + b \<le> 1023"
  shows "float_mul (pw2 a) (pw2 b) = pw2 (a + b)"
proof -
  have "float_mul (pw2 a) (pw2 b) = round_double (2 powr of_int (a + b))"
    by (simp add: pw2_def powr_add)
  also have "\<dots> = Fin (2 powr of_int (a + b))"
    using assms by (rule round_double_pow2)
  finally show ?thesis by (simp only: pw2_def)
qed

lemma float_mul_pw2_underflow:
  assumes "a + b < - 1075"
  shows "float_mul (pw2 a) (pw2 b) = Fin 0"
proof -
  have "float_mul (pw2 a) (pw2 b) = round_double (2 powr of_int (a + b))"
    by (simp add: pw2_def powr_add)
  also have "\<dots> = Fin 0"
    using assms by (rule round_double_tiny)
  finally show ?thesis .
qed

lemma float_mul_zero: "float_mul (Fin 0) (pw2 b) = Fin 0"
  by (simp add: pw2_def round_double_def)

lemma quarter: "float_truediv 1 4 = Inr (Fin (1 / 4))"
proof -
  have e: "(1::real) / 4 = 2 powr of_int (- 2)"
    by (simp add: powr_minus_divide)
  have "round_double (2 powr of_int (- 2)) = Fin (2 powr of_int (- 2))"
    by (rule round_double_pow2) simp_all
  then have "round_double (1 / 4) = Fin (1 / 4)"
    by (simp only: e)
  then show ?thesis
    by (simp add: float_truediv_def)
qed

lemma geo_mean_ieee_four:
  "geo_mean_ieee [a, b, c, d] =
     float_pow (float_mul (float_mul (float_mul a b) c) d) (Fin (1 / 4))"
  using quarter by (simp add: geo_mean_ieee_def)

lemma round_double_zero: "round_double 0 = Fin 0"
  by (simp add: round_double_def)

lemma float_mul_Fin_zero: "float_mul (Fin x) (Fin 0) = Fin 0" "float_mul (Fin 0) (Fin y) = Fin 0"
  by (simp_all add: round_double_zero)

lemma round_half_even_nonneg: "0 \<le> x \<Longrightarrow> 0 \<le> round_half_even x"
  by (simp add: round_half_even_def Let_def)

lemma round_double_nonneg:
  assumes "0 \<le> x"
  shows "float_nonneg (round_double x)"
proof (cases "x = 0")
  case True
  then show ?thesis by (simp add: round_double_zero)
next
  case False
  with assms have x: "0 < x" by simp
  define u where "u = (2::real) powr (of_int (max \<lfloor>log 2 \<bar>x\<bar>\<rfloor> (- 1022)) - 52)"
  have u: "0 < u" by (simp add: u_def)
  have "0 \<le> x / u" using x u by simp
  then have "0 \<le> round_half_even (x / u)" by (rule round_half_even_nonneg)
  then have r: "0 \<le> of_int (round_half_even (x / u)) * u" using u by simp
  have "round_double x =
          (if 2 powr 1024 \<le> \<bar>of_int (round_half_even (x / u)) * u\<bar> then Inf False
           else Fin (of_int (round_half_even (x / u)) * u))"
    using x by (simp add: round_double_def Let_def u_def)
  then show ?thesis using r by simp
qed

lemma float_mul_nonneg:
  assumes "float_nonneg a" and "0 \<le> t"
  shows "float_nonneg (float_mul a (Fin t))"
proof (cases a)
  case (Fin x)
  with assms have "0 \<le> x * t" by simp
  then show ?thesis unfolding Fin by (simp add: round_double_nonneg)
next
  case (Inf s)
  with assms show ?thesis by simp
next
  case NaN
  then show ?thesis by simp
qed

lemma foldl_float_mul_nonneg:
  assumes "float_nonneg a" and "\<forall>t\<in>set ts. 0 \<le> t"
  shows "float_nonneg (foldl float_mul a (map Fin ts))"
  using assms by (induction ts arbitrary: a) (simp_all add: float_mul_nonneg)

lemma geo_mean_four:
  "geo_mean cp [a, b, c, d] =
     py_float_pow cp (float_mul (float_mul (float_mul (Fin a) (Fin b)) (Fin c)) (Fin d)) (Fin (1 / 4))"
  using quarter by (simp add: geo_mean_def)


lemma py_float_pow_agrees:
  "float_pow x y = Some (Inr v) \<Longrightarrow> py_float_pow cp x y = Inr (FloatV v)"
  "float_pow x y = Some (Inl e) \<Longrightarrow> py_float_pow cp x y = Inl e"
  by (cases y; auto split: if_splits)+

lemma geo_mean_agrees:
  assumes "geo_mean_ieee (map Fin ts) = Some (Inr v)"
  shows "geo_mean cp ts = Inr (FloatV v)"
proof (cases ts)
  case Nil
  with assms show ?thesis by (simp add: geo_mean_ieee_def)
next
  case (Cons t rest)
  with assms show ?thesis
    by (auto simp: geo_mean_ieee_def geo_mean_def py_float_pow_agrees split: sum.splits)
qed


lemma four_equal_underflow:
  "geo_mean_ieee [pw2 (- 300), pw2 (- 300), pw2 (- 300), pw2 (- 300)] = Some (Inr (Fin 0))"
proof -
  have a: "float_mul (pw2 (- 300)) (pw2 (- 300)) = pw2 (- 600)"
    using float_mul_pw2 [of "- 300" "- 300"] by simp
  have b: "float_mul (pw2 (- 600)) (pw2 (- 300)) = pw2 (- 900)"
    using float_mul_pw2 [of "- 600" "- 300"] by simp
  have c: "float_mul (pw2 (- 900)) (pw2 (- 300)) = Fin 0"
    by (rule float_mul_pw2_underflow) simp
  show ?thesis
    by (simp add: geo_mean_ieee_four a b c)
qed

lemma round_double_exact:
  assumes "2 powr of_int k \<le> x" and "x < 2 powr (of_int k + 1)"
    and "- 1022 \<le> k" and "k \<le> 1023"
    and "x / 2 powr (of_int k - 52) = of_int n"
  shows "round_double x = Fin x"
proof -
  have pos: "0 < x" using assms(1) by (rule less_le_trans [rotated]) simp
  have lg: "\<lfloor>log 2 \<bar>x\<bar>\<rfloor> = k"
    using pos assms(1,2) by (simp add: floor_log_eq_powr_iff)
  have e: "max \<lfloor>log 2 \<bar>x\<bar>\<rfloor> (- 1022) = k" using assms(3) by (simp add: lg)
  have r: "of_int (round_half_even (x / 2 powr (of_int k - 52))) * 2 powr (of_int k - 52) = x"
  proof -
    have "of_int (round_half_even (x / 2 powr (of_int k - 52))) * 2 powr (of_int k - 52)
          = (x / 2 powr (of_int k - 52)) * 2 powr (of_int k - 52)"
      unfolding assms(5) round_half_even_of_int ..
    also have "\<dots> = x" by simp
    finally show ?thesis .
  qed
  have "(2::real) powr (of_int k + 1) \<le> 2 powr 1024"
    by (rule powr_mono) (use assms(4) in simp_all)
  with assms(2) pos have small: "\<not> 2 powr 1024 \<le> \<bar>x\<bar>" by linarith
  have nz: "x \<noteq> 0" using pos by simp
  show ?thesis
    unfolding round_double_def Let_def e r using nz small by simp
qed

lemma round_double_one: "round_double 1 = Fin 1"
  using round_double_pow2 [of 0] by simp

lemma round_double_two: "round_double 2 = Fin 2"
  using round_double_pow2 [of 1] by simp

lemma two_powr_51: "(2::real) powr 51 = of_int (2 ^ 51)"
proof -
  have "(2::real) powr (real (51::nat)) = 2 ^ 51"
    by (rule powr_realpow) simp
  then show ?thesis by simp
qed

lemma round_double_three: "round_double 3 = Fin 3"
proof (rule round_double_exact [where k = 1 and n = "3 * 2 ^ 51"])
  show "2 powr of_int 1 \<le> (3::real)" by simp
  have "(2::real) powr (1 + 1) = 4" by simp
  then show "(3::real) < 2 powr (of_int 1 + 1)" by simp
  show "- 1022 \<le> (1::int)" "(1::int) \<le> 1023" by simp_all
  have "(3::real) / 2 powr (of_int 1 - 52) = 3 * 2 powr 51"
    by (simp add: powr_minus_divide)
  also have "\<dots> = of_int (3 * 2 ^ 51)"
    unfolding two_powr_51 by simp
  finally show "(3::real) / 2 powr (of_int 1 - 52) = of_int (3 * 2 ^ 51)" .
qed

lemma one_over_one: "float_truediv 1 1 = Inr (Fin 1)"
  by (simp add: float_truediv_def round_double_one)

lemma geo_mean_one:
  "geo_mean cp [v] = py_float_pow cp (Fin v) (Fin 1)"
  by (simp add: geo_mean_def one_over_one)

lemma round_double_quarter: "round_double (1 / 4) = Fin (1 / 4)"
  using quarter by (simp add: float_truediv_def)

lemma round_double_sixteen: "round_double 16 = Fin 16"
  using round_double_pow2 [of 4] by simp

lemma sixteen_powr_quarter: "(16::real) powr (1 / 4) = 2"
proof -
  have "(16::real) = 2 powr 4" by simp
  then have "(16::real) powr (1 / 4) = (2 powr 4) powr (1 / 4)" by simp
  also have "\<dots> = 2 powr (4 * (1 / 4))" by (rule powr_powr)
  also have "\<dots> = 2" by simp
  finally show ?thesis .
qed

lemma geo_mean_exact_Cons:
  "geo_mean_exact (t # ts) = pow_exact (t * prod_list ts) (1 / (1 + real (length ts)))"
  by (simp add: geo_mean_exact_def truediv_exact_def foldl_mult add.commute)

lemma geo_mean_exact_nonempty:
  "ts \<noteq> [] \<Longrightarrow> geo_mean_exact ts = pow_exact (prod_list ts) (1 / real (length ts))"
  by (cases ts) (simp_all add: geo_mean_exact_Cons add.commute)

lemma pow_exact_nonneg: "0 \<le> x \<Longrightarrow> 0 < y \<Longrightarrow> pow_exact x y = Inr (PyFloat (x powr y))"
  by (simp add: pow_exact_def)

lemma prod_list_nonneg: "\<forall>t\<in>set ts. (0::real) \<le> t \<Longrightarrow> 0 \<le> prod_list ts"
  by (induction ts) simp_all

lemma prod_list_zero: "(0::real) \<in> set ts \<Longrightarrow> prod_list ts = 0"
  by (induction ts) auto

lemma fourth_root_of_fourth_power: "0 < v \<Longrightarrow> (v * (v * (v * v))) powr (1 / 4) = (v::real)"
proof -
  assume v: "0 < v"
  have e: "v * (v * (v * v)) = v ^ 4"
    by (simp add: power4_eq_xxxx mult.assoc)
  have "(v ^ 4) powr (1 / 4) = root 4 (v ^ 4)"
    using v by (simp add: root_powr_inverse)
  also have "\<dots> = v"
    using v by (simp add: real_root_power_cancel)
  finally show ?thesis
    by (simp only: e)
qed

lemma replicate_numeral: "replicate (numeral k) x = x # replicate (pred_numeral k) x"
  by (simp add: numeral_eq_Suc)

lemmas format_eval =
  format_06f_def millionths_def round_half_even_def Let_def decimal.simps digit_def zfill_def
  replicate_numeral

lemma best_le: "best w n \<le> elapsed w n" "best w n \<le> elapsed w (n + 1)" "best w n \<le> elapsed w (n + 2)"
  by (simp_all add: best_def py_min_def)

lemma best_mem: "best w n = elapsed w n \<or> best w n = elapsed w (n + 1) \<or> best w n = elapsed w (n + 2)"
  by (simp add: best_def py_min_def)

lemma less_three: "k < (3::nat) \<longleftrightarrow> k = 0 \<or> k = 1 \<or> k = 2"
  by auto

lemma best_Min: "best w n = Min {elapsed w n, elapsed w (n + 1), elapsed w (n + 2)}"
  by (simp add: best_def py_min_eq_min min.assoc)

lemma run_ok:
  assumes "\<forall>s\<in>set srcs. load_error w (path s) = None"
  shows "run w srcs =
     (case geo_mean (c_pow w) (min_times (measured w srcs init)) of
        Inl e \<Rightarrow> (Some e, measured w srcs init)
      | Inr g \<Rightarrow>
          (case format_value g of
             Inl e \<Rightarrow> (Some e, measured w srcs init)
           | Inr txt \<Rightarrow>
               (None, (measured w srcs init)\<lparr>stdout := stdout (measured w srcs init) @ [total_line txt]\<rparr>)))"
  by (simp add: run_def for_loop_ok [OF assms])

lemma run_fail:
  assumes "\<forall>x\<in>set pre. load_error w (path x) = None" and "load_error w (path s) = Some e"
  shows "run w (pre @ s # post) =
     (Some e, (measured w pre init)\<lparr>trials := trials (measured w pre init) @ [path s]\<rparr>)"
  by (simp add: run_def for_loop_fail [OF assms])

lemma first_failure:
  assumes "\<exists>s\<in>set srcs. load_error w (path s) \<noteq> None"
  shows "\<exists>pre s post e. srcs = pre @ s # post \<and> (\<forall>x\<in>set pre. load_error w (path x) = None) \<and>
           load_error w (path s) = Some e"
proof -
  from split_list_first_prop [OF assms]
  obtain pre s post where "srcs = pre @ s # post" "load_error w (path s) \<noteq> None"
    "\<forall>x\<in>set pre. \<not> load_error w (path x) \<noteq> None"
    by blast
  then show ?thesis by auto
qed

lemma run_success_loads:
  assumes "fst (run w srcs) = None"
  shows "\<forall>s\<in>set srcs. load_error w (path s) = None"
proof (rule ccontr)
  assume "\<not> (\<forall>s\<in>set srcs. load_error w (path s) = None)"
  then have "\<exists>s\<in>set srcs. load_error w (path s) \<noteq> None" by simp
  from first_failure [OF this] obtain pre s post e where
    "srcs = pre @ s # post" "\<forall>x\<in>set pre. load_error w (path x) = None"
    "load_error w (path s) = Some e" by blast
  then have "fst (run w srcs) = Some e" by (simp add: run_fail)
  with assms show False by simp
qed

lemma init_fields: "min_times init = []" "stdout init = []" "trials init = []"
  by (simp_all add: init_def)

lemma run_shape:
  "\<exists>k rest. k \<le> length srcs \<and>
     min_times (snd (run w srcs)) = map (\<lambda>i. best w (3 * i)) [0 ..< k] \<and>
     trials (snd (run w srcs)) = concat (map (\<lambda>s. replicate 3 (path s)) (take k srcs)) @ rest \<and>
     (fst (run w srcs) = None \<longrightarrow> k = length srcs \<and> rest = [])"
proof (cases "\<forall>s\<in>set srcs. load_error w (path s) = None")
  case True
  have "min_times (snd (run w srcs)) = map (\<lambda>i. best w (3 * i)) [0 ..< length srcs] \<and>
        trials (snd (run w srcs)) = concat (map (\<lambda>s. replicate 3 (path s)) srcs)"
    by (simp add: run_ok [OF True] min_times_measured trials_measured init_fields
          split: sum.splits)
  then show ?thesis
    by (intro exI [of _ "length srcs"] exI [of _ "[]"]) simp
next
  case False
  then have "\<exists>s\<in>set srcs. load_error w (path s) \<noteq> None" by simp
  from first_failure [OF this] obtain pre s post e where
    d: "srcs = pre @ s # post" and p: "\<forall>x\<in>set pre. load_error w (path x) = None"
    and f: "load_error w (path s) = Some e" by blast
  have "run w srcs = (Some e, (measured w pre init)\<lparr>trials := trials (measured w pre init) @ [path s]\<rparr>)"
    unfolding d using p f by (rule run_fail)
  then show ?thesis
    by (intro exI [of _ "length pre"] exI [of _ "[path s]"])
       (simp add: d min_times_measured trials_measured init_fields)
qed

lemma nth_blocks:
  "i < length xs \<Longrightarrow> k < 3 \<Longrightarrow>
   (concat (map (\<lambda>s. replicate 3 (f s)) xs) @ rest) ! (3 * i + k) = f (xs ! i)"
proof (induction xs arbitrary: i)
  case Nil
  then show ?case by simp
next
  case (Cons x xs)
  show ?case
  proof (cases i)
    case 0
    with Cons.prems show ?thesis by (simp add: nth_append)
  next
    case (Suc j)
    have j: "j < length xs" using Cons.prems(1) Suc by simp
    have e: "3 * Suc j + k = 3 + (3 * j + k)" by simp
    have "(concat (map (\<lambda>s. replicate 3 (f s)) (x # xs)) @ rest) ! (3 * Suc j + k) =
          (concat (map (\<lambda>s. replicate 3 (f s)) xs) @ rest) ! (3 * j + k)"
      unfolding e by (simp add: nth_append)
    also have "\<dots> = f (xs ! j)"
      using j Cons.prems(2) by (rule Cons.IH)
    finally show ?thesis
      by (simp add: Suc)
  qed
qed

lemma w0_loads: "load_error w0 p = None"
  by (simp add: load_error_def w0_def)

lemma elapsed_w0:
  "elapsed w0 0 = 1/2" "elapsed w0 1 = 1/4" "elapsed w0 2 = 3/4"
  "elapsed w0 3 = 2" "elapsed w0 4 = 1" "elapsed w0 5 = 3"
  "elapsed w0 6 = 4" "elapsed w0 7 = 8" "elapsed w0 8 = 9/2"
  "elapsed w0 9 = 16" "elapsed w0 10 = 32" "elapsed w0 11 = 24"
  by (simp_all add: w0_def samples0_def)

lemma best_w0: "best w0 0 = 1/4" "best w0 3 = 1" "best w0 6 = 4" "best w0 9 = 16"
  by (simp_all add: best_def py_min_def w0_def samples0_def)

lemma format_samples:
  "format_06f (1/4) = ''0.250000''" "format_06f 1 = ''1.000000''" "format_06f 4 = ''4.000000''"
  "format_06f 16 = ''16.000000''" "format_06f 2 = ''2.000000''"
  by (simp_all add: format_eval)

lemma w0_c_pow: "c_pow w0 = correctly_rounded_pow"
  by (simp add: w0_def)

lemma aggregate_w0: "geo_mean correctly_rounded_pow [1/4, 1, 4, 16] = Inr (FloatV (Fin 2))"
proof -
  have a: "float_mul (Fin (1 / 4)) (Fin 1) = Fin (1 / 4)"
    by (simp add: round_double_quarter)
  have b: "float_mul (Fin (1 / 4)) (Fin 4) = Fin 1"
    by (simp add: round_double_one)
  have c: "float_mul (Fin 1) (Fin 16) = Fin 16"
    by (simp add: round_double_sixteen)
  have "geo_mean correctly_rounded_pow [1/4, 1, 4, 16] =
          py_float_pow correctly_rounded_pow (Fin 16) (Fin (1 / 4))"
    unfolding geo_mean_four a b c ..
  also have "\<dots> = Inr (FloatV (Fin 2))"
    by (simp add: correctly_rounded_pow_def sixteen_powr_quarter round_double_two)
  finally show ?thesis .
qed

lemma measured_w0:
  "measured w0 sources init =
     \<lparr>min_times = [1/4, 1, 4, 16],
      stdout = [''canada 0.250000 seconds'', ''citm_catalog 1.000000 seconds'',
                ''citylots 4.000000 seconds'', ''twitter 16.000000 seconds''],
      trials = [''../data/canada.json'', ''../data/canada.json'', ''../data/canada.json'',
                ''../data/citm_catalog.json'', ''../data/citm_catalog.json'',
                ''../data/citm_catalog.json'',
                ''../data/citylots.json'', ''../data/citylots.json'', ''../data/citylots.json'',
                ''../data/twitter.json'', ''../data/twitter.json'', ''../data/twitter.json'']\<rparr>"
  by (simp add: sources_def measured_one_def init_def best_def py_min_def w0_def samples0_def
        format_samples source_line_def path_def replicate_numeral)

lemma main_w0:
  "main w0 =
     (None,
      \<lparr>min_times = [1/4, 1, 4, 16],
       stdout = [''canada 0.250000 seconds'', ''citm_catalog 1.000000 seconds'',
                 ''citylots 4.000000 seconds'', ''twitter 16.000000 seconds'',
                 ''Total (G.M): 2.000000''],
       trials = [''../data/canada.json'', ''../data/canada.json'', ''../data/canada.json'',
                 ''../data/citm_catalog.json'', ''../data/citm_catalog.json'',
                 ''../data/citm_catalog.json'',
                 ''../data/citylots.json'', ''../data/citylots.json'', ''../data/citylots.json'',
                 ''../data/twitter.json'', ''../data/twitter.json'', ''../data/twitter.json'']\<rparr>)"
proof -
  have c: "c_pow w0 = correctly_rounded_pow" by (simp add: w0_def)
  show ?thesis
    by (simp add: main_def run_ok w0_loads measured_w0 c aggregate_w0 format_samples total_line_def)
qed

lemma source_line_not_total:
  "s \<in> set sources \<Longrightarrow> \<not> prefix ''Total (G.M):'' (source_line s t)"
  by (auto simp: sources_def source_line_def)

lemma stdout_measured_lines:
  assumes "l \<in> set (stdout (measured w pre init))"
  shows "\<exists>s\<in>set pre. \<exists>t. l = source_line s t"
proof -
  from assms obtain i where "i < length pre"
    and "l = source_line (pre ! i) (best w (length (trials init) + 3 * i))"
    by (auto simp: stdout_measured init_fields)
  then show ?thesis
    using nth_mem by blast
qed

lemma length_stdout_measured: "length (stdout (measured w pre init)) = length pre"
  by (simp add: stdout_measured init_fields)

lemma open_error_is_load_error: "open_read w p = Inl e \<Longrightarrow> load_error w p = Some e"
  by (simp add: load_error_def)

lemma w1_loads:
  "load_error w1 (path ''canada'') = None" "load_error w1 (path ''citm_catalog'') = None"
  "load_error w1 (path ''citylots'') = Some FileNotFoundError"
  by (simp_all add: load_error_def w1_def path_def)

lemma main_w1:
  "main w1 =
     (Some FileNotFoundError,
      \<lparr>min_times = [1/4, 1],
       stdout = [''canada 0.250000 seconds'', ''citm_catalog 1.000000 seconds''],
       trials = [''../data/canada.json'', ''../data/canada.json'', ''../data/canada.json'',
                 ''../data/citm_catalog.json'', ''../data/citm_catalog.json'',
                 ''../data/citm_catalog.json'', ''../data/citylots.json'']\<rparr>)"
proof -
  have s: "sources = [''canada'', ''citm_catalog''] @ ''citylots'' # [''twitter'']"
    by (simp add: sources_def)
  have m: "measured w1 [''canada'', ''citm_catalog''] init =
     \<lparr>min_times = [1/4, 1],
      stdout = [''canada 0.250000 seconds'', ''citm_catalog 1.000000 seconds''],
      trials = [''../data/canada.json'', ''../data/canada.json'', ''../data/canada.json'',
                ''../data/citm_catalog.json'', ''../data/citm_catalog.json'',
                ''../data/citm_catalog.json'']\<rparr>"
    by (simp add: measured_one_def init_def best_def py_min_def w1_def samples0_def
          format_samples source_line_def path_def replicate_numeral)
  have "main w1 = (Some FileNotFoundError,
      (measured w1 [''canada'', ''citm_catalog''] init)
        \<lparr>trials := trials (measured w1 [''canada'', ''citm_catalog''] init) @ [path ''citylots'']\<rparr>)"
    unfolding main_def s by (rule run_fail) (simp_all add: w1_loads)
  from this [unfolded m] show ?thesis
    by (simp add: path_def)
qed

lemma suc_numerals:
  "Suc (Suc (Suc 0)) = 3" "Suc (Suc (Suc (Suc (Suc (Suc 0))))) = 6"
  "Suc (Suc (Suc (Suc (Suc (Suc (Suc (Suc (Suc 0)))))))) = 9"
  by simp_all

lemma measured_sources:
  "measured w sources init =
     \<lparr>min_times = [best w 0, best w 3, best w 6, best w 9],
      stdout = [source_line ''canada'' (best w 0), source_line ''citm_catalog'' (best w 3),
                source_line ''citylots'' (best w 6), source_line ''twitter'' (best w 9)],
      trials = concat (map (\<lambda>s. replicate 3 (path s)) sources)\<rparr>"
  by (simp add: sources_def measured_one_def init_def suc_numerals)

lemma main_success:
  assumes "fst (main w) = None"
  shows "\<exists>g. geo_mean (c_pow w) [best w 0, best w 3, best w 6, best w 9] = Inr (FloatV g) \<and>
             main w = (None, (measured w sources init)
                 \<lparr>stdout := stdout (measured w sources init) @ [total_line (format_float g)]\<rparr>)"
proof -
  have l: "\<forall>s\<in>set sources. load_error w (path s) = None"
    using assms unfolding main_def by (rule run_success_loads)
  note r = run_ok [OF l]
  have mt: "min_times (measured w sources init) = [best w 0, best w 3, best w 6, best w 9]"
    by (simp add: measured_sources)
  from assms obtain q where q: "geo_mean (c_pow w) [best w 0, best w 3, best w 6, best w 9] = Inr q"
    unfolding main_def r mt
    by (cases "geo_mean (c_pow w) [best w 0, best w 3, best w 6, best w 9]") auto
  from assms obtain g where g: "q = FloatV g"
    unfolding main_def r mt q by (cases q) auto
  have "main w = (None, (measured w sources init)
                 \<lparr>stdout := stdout (measured w sources init) @ [total_line (format_float g)]\<rparr>)"
    unfolding main_def r mt q g by simp
  with q g show ?thesis by blast
qed


lemma load_error_None:
  assumes "load_error w p = None"
  shows "\<exists>txt. open_read w p = Inr txt \<and> json_load w txt = None"
  using assms by (cases "open_read w p") (simp_all add: load_error_def)

lemma trials_prefix:
  "prefix (trials (snd (run w srcs))) (concat (map (\<lambda>s. replicate 3 (path s)) srcs))"
proof (cases "\<forall>s\<in>set srcs. load_error w (path s) = None")
  case True
  have "trials (snd (run w srcs)) = concat (map (\<lambda>s. replicate 3 (path s)) srcs)"
    by (simp add: run_ok [OF True] trials_measured init_fields split: sum.splits)
  then show ?thesis by simp
next
  case False
  then have "\<exists>s\<in>set srcs. load_error w (path s) \<noteq> None" by simp
  from first_failure [OF this] obtain pre s post e where
    d: "srcs = pre @ s # post" and p: "\<forall>x\<in>set pre. load_error w (path x) = None"
    and f: "load_error w (path s) = Some e" by blast
  have "run w srcs = (Some e, (measured w pre init)\<lparr>trials := trials (measured w pre init) @ [path s]\<rparr>)"
    unfolding d using p f by (rule run_fail)
  then have "trials (snd (run w srcs)) = concat (map (\<lambda>s. replicate 3 (path s)) pre) @ [path s]"
    by (simp add: trials_measured init_fields)
  then show ?thesis
    by (simp add: d replicate_numeral)
qed























lemma round_double_huge:
  assumes "1024 \<le> k"
  shows "round_double (2 powr of_int k) = Inf False"
proof -
  let ?x = "(2::real) powr of_int k"
  have pos: "0 < ?x" by simp
  have lg: "\<lfloor>log 2 \<bar>?x\<bar>\<rfloor> = k" by simp
  have e: "max \<lfloor>log 2 \<bar>?x\<bar>\<rfloor> (- 1022) = k" using assms by (simp add: lg)
  have q: "?x / 2 powr (of_int k - 52) = of_int (2 ^ 52)"
  proof -
    have "?x / 2 powr (of_int k - 52) = 2 powr (of_int k - (of_int k - 52))"
      by (simp only: powr_diff)
    also have "\<dots> = 2 powr 52" by simp
    finally show ?thesis by (simp only: two_powr_52)
  qed
  have r: "of_int (round_half_even (?x / 2 powr (of_int k - 52))) * 2 powr (of_int k - 52) = ?x"
  proof -
    have "of_int (round_half_even (?x / 2 powr (of_int k - 52))) * 2 powr (of_int k - 52)
          = (?x / 2 powr (of_int k - 52)) * 2 powr (of_int k - 52)"
      unfolding q round_half_even_of_int ..
    also have "\<dots> = ?x" by simp
    finally show ?thesis .
  qed
  have "(2::real) powr 1024 \<le> ?x"
    by (rule powr_mono) (use assms in simp_all)
  with pos have big: "2 powr 1024 \<le> \<bar>?x\<bar>" by linarith
  have nz: "?x \<noteq> 0" by simp
  have nn: "\<not> ?x < 0" using pos by linarith
  show ?thesis
    unfolding round_double_def Let_def e r using nz big nn by simp
qed

lemma float_mul_pw2_overflow:
  assumes "1024 \<le> a + b"
  shows "float_mul (pw2 a) (pw2 b) = Inf False"
proof -
  have "float_mul (pw2 a) (pw2 b) = round_double (2 powr of_int (a + b))"
    by (simp add: pw2_def powr_add)
  also have "\<dots> = Inf False"
    using assms by (rule round_double_huge)
  finally show ?thesis .
qed






lemma round_double_not_NaN: "round_double x \<noteq> NaN"
  by (simp add: round_double_def Let_def)

lemma float_mul_not_NaN:
  assumes "a \<noteq> NaN" and "t \<noteq> 0"
  shows "float_mul a (Fin t) \<noteq> NaN"
  using assms by (cases a) (simp_all add: round_double_not_NaN)

lemma foldl_not_NaN:
  assumes "a \<noteq> NaN" and "\<forall>t\<in>set xs. t \<noteq> 0"
  shows "foldl float_mul a (map Fin xs) \<noteq> NaN"
  using assms by (induction xs arbitrary: a) (simp_all add: float_mul_not_NaN)

lemma foldl_from_zero: "foldl float_mul (Fin 0) (map Fin xs) = Fin 0"
  by (induction xs) (simp_all add: round_double_zero)

lemma foldl_from_NaN: "foldl float_mul NaN (map Fin xs) = NaN"
  by (induction xs) simp_all

lemma product_with_zero:
  assumes "0 \<in> set ts"
  shows "reduce_py float_mul (map Fin ts) =
           Inr (if overflowed (takeWhile (\<lambda>t. t \<noteq> 0) ts) then NaN else Fin 0)"
proof -
  from split_list_first [OF assms] obtain pre post where
    d: "ts = pre @ 0 # post" and n: "0 \<notin> set pre" by blast
  have nz: "\<forall>t\<in>set pre. t \<noteq> 0" using n by auto
  have tw: "takeWhile (\<lambda>t. t \<noteq> 0) ts = pre"
    unfolding d using nz by (simp add: takeWhile_append2)
  show ?thesis
  proof (cases pre)
    case Nil
    then show ?thesis
      unfolding tw by (simp add: d overflowed_def foldl_from_zero)
  next
    case (Cons a rest)
    define P where "P = foldl float_mul (Fin a) (map Fin rest)"
    have "\<forall>t\<in>set rest. t \<noteq> 0" using nz Cons by simp
    then have pn: "P \<noteq> NaN"
      unfolding P_def by (intro foldl_not_NaN) simp_all
    have o: "overflowed pre = (case P of Fin x \<Rightarrow> False | Inf s \<Rightarrow> True | NaN \<Rightarrow> False)"
      by (simp add: overflowed_def Cons P_def)
    have r: "reduce_py float_mul (map Fin ts) =
               Inr (foldl float_mul (float_mul P (Fin 0)) (map Fin post))"
      by (simp add: d Cons P_def)
    show ?thesis
    proof (cases P)
      case (Fin x)
      then show ?thesis
        unfolding tw r o by (simp add: round_double_zero foldl_from_zero)
    next
      case (Inf s)
      then show ?thesis
        unfolding tw r o by (simp add: foldl_from_NaN)
    next
      case NaN
      with pn show ?thesis by simp
    qed
  qed
qed

lemma geo_mean_of_four:
  assumes "length ts = 4"
  shows "geo_mean cp ts =
           (case reduce_py float_mul (map Fin ts) of
              Inl e \<Rightarrow> Inl e
            | Inr p \<Rightarrow> py_float_pow cp p (Fin (1 / 4)))"
proof -
  have "float_truediv 1 (int (length ts)) = Inr (Fin (1 / 4))"
    using assms quarter by simp
  then show ?thesis
    by (cases "reduce_py float_mul (map Fin ts)") (simp_all add: geo_mean_def)
qed

lemma overflowed_big: "overflowed [2 powr 600, 2 powr 600]"
proof -
  have "float_mul (pw2 600) (pw2 600) = Inf False"
    by (rule float_mul_pw2_overflow) simp
  then have "float_mul (Fin (2 powr 600)) (Fin (2 powr 600)) = Inf False"
    by (simp only: pw2_def) simp
  then show ?thesis
    by (simp add: overflowed_def del: float_mul.simps)
qed


section \<open>The properties\<close>

text \<open>Claim C1. Every entry of \<open>min_times\<close> is the minimum of exactly three durations: entry \<open>i\<close> belongs to source \<open>i\<close>, the timed executions \<open>3i\<close>, \<open>3i+1\<close> and \<open>3i+2\<close> of the run are the ones made on that source's file, the entry is at most each of their durations and is equal to one of them; it is non-negative when they are.\<close>

theorem per_source_minimum_of_three:
  assumes "i < length (min_times (snd (main w)))"
  shows "i < length sources \<and>
         (\<forall>k<3. trials (snd (main w)) ! (3 * i + k) = path (sources ! i) \<and>
                 min_times (snd (main w)) ! i \<le> elapsed w (3 * i + k)) \<and>
         (\<exists>k<3. min_times (snd (main w)) ! i = elapsed w (3 * i + k)) \<and>
         ((\<forall>k<3. 0 \<le> elapsed w (3 * i + k)) \<longrightarrow> 0 \<le> min_times (snd (main w)) ! i)"
proof -
  from run_shape [of sources w] obtain k rest where
    k: "k \<le> length sources"
    and m: "min_times (snd (main w)) = map (\<lambda>i. best w (3 * i)) [0 ..< k]"
    and t: "trials (snd (main w)) = concat (map (\<lambda>s. replicate 3 (path s)) (take k sources)) @ rest"
    unfolding main_def by blast
  from assms m have ik: "i < k" by simp
  then have b: "min_times (snd (main w)) ! i = best w (3 * i)" by (simp add: m)
  have il: "i < length sources" using ik k by simp
  have tr: "\<forall>j<3. trials (snd (main w)) ! (3 * i + j) = path (sources ! i)"
    using ik k by (simp add: t nth_blocks)
  have le: "\<forall>j<3. min_times (snd (main w)) ! i \<le> elapsed w (3 * i + j)"
    using best_le [of w "3 * i"] by (auto simp: b less_three)
  have ex: "\<exists>j<3. min_times (snd (main w)) ! i = elapsed w (3 * i + j)"
    using best_mem [of w "3 * i"] by (auto simp: b less_three)
  have nn: "(\<forall>j<3. 0 \<le> elapsed w (3 * i + j)) \<longrightarrow> 0 \<le> min_times (snd (main w)) ! i"
    using ex by auto
  from il tr le ex nn show ?thesis by simp
qed

text \<open>Claim C1 at the second source of a run where every file loads: its durations are 2, 1 and 3, and the entry is 1.\<close>

theorem per_source_minimum_of_three_witness:
  "1 < length (min_times (snd (main w0))) \<and> sources ! 1 = ''citm_catalog'' \<and>
   trials (snd (main w0)) ! 3 = ''../data/citm_catalog.json'' \<and>
   trials (snd (main w0)) ! 4 = ''../data/citm_catalog.json'' \<and>
   trials (snd (main w0)) ! 5 = ''../data/citm_catalog.json'' \<and>
   elapsed w0 3 = 2 \<and> elapsed w0 4 = 1 \<and> elapsed w0 5 = 3 \<and>
   min_times (snd (main w0)) ! 1 = 1"
  using per_source_minimum_of_three [of 1 w0]
  by (simp add: main_w0 elapsed_w0 sources_def)



text \<open>Claim C3. The script goes through the four fixed names in their fixed order, timing for each the file \<open>../data/<name>.json\<close> three times: the timed executions of any run are a prefix of canada, canada, canada, citm_catalog, ... and of a run that ends well they are all twelve; in such a run every source's file was opened and parsed, \<open>min_times\<close> holds, in that order, the smallest duration of each group of three, five lines are printed, and the last is \<open>Total (G.M):\<close> followed by the aggregate of \<open>min_times\<close>, computed in double precision, in the \<open>0.06f\<close> format.\<close>

theorem fixed_sources_in_order:
  "sources = [''canada'', ''citm_catalog'', ''citylots'', ''twitter''] \<and>
   map path sources = [''../data/canada.json'', ''../data/citm_catalog.json'',
                       ''../data/citylots.json'', ''../data/twitter.json''] \<and>
   prefix (trials (snd (main w))) (concat (map (\<lambda>s. replicate 3 (path s)) sources)) \<and>
   (fst (main w) = None \<longrightarrow>
      trials (snd (main w)) = concat (map (\<lambda>s. replicate 3 (path s)) sources) \<and>
      (\<forall>s\<in>set sources. \<exists>txt. open_read w (path s) = Inr txt \<and> json_load w txt = None) \<and>
      min_times (snd (main w)) =
        [Min {elapsed w 0, elapsed w 1, elapsed w 2}, Min {elapsed w 3, elapsed w 4, elapsed w 5},
         Min {elapsed w 6, elapsed w 7, elapsed w 8}, Min {elapsed w 9, elapsed w 10, elapsed w 11}] \<and>
      length (stdout (snd (main w))) = 5 \<and>
      (\<exists>g. geo_mean (c_pow w) (min_times (snd (main w))) = Inr (FloatV g) \<and>
           last (stdout (snd (main w))) = ''Total (G.M): '' @ format_float g))"
proof (intro conjI impI)
  show "sources = [''canada'', ''citm_catalog'', ''citylots'', ''twitter'']"
    by (simp add: sources_def)
  show "map path sources = [''../data/canada.json'', ''../data/citm_catalog.json'',
                       ''../data/citylots.json'', ''../data/twitter.json'']"
    by (simp add: sources_def path_def)
  show "prefix (trials (snd (main w))) (concat (map (\<lambda>s. replicate 3 (path s)) sources))"
    unfolding main_def by (rule trials_prefix)
next
  assume ok: "fst (main w) = None"
  from main_success [OF ok] obtain g where
    g: "geo_mean (c_pow w) [best w 0, best w 3, best w 6, best w 9] = Inr (FloatV g)"
    and m: "main w = (None, (measured w sources init)
                 \<lparr>stdout := stdout (measured w sources init) @ [total_line (format_float g)]\<rparr>)"
    by blast
  show "trials (snd (main w)) = concat (map (\<lambda>s. replicate 3 (path s)) sources)"
    by (simp add: m measured_sources)
  have "\<forall>s\<in>set sources. load_error w (path s) = None"
    using ok unfolding main_def by (rule run_success_loads)
  then show "\<forall>s\<in>set sources. \<exists>txt. open_read w (path s) = Inr txt \<and> json_load w txt = None"
    by (simp add: load_error_None)
  show "min_times (snd (main w)) =
        [Min {elapsed w 0, elapsed w 1, elapsed w 2}, Min {elapsed w 3, elapsed w 4, elapsed w 5},
         Min {elapsed w 6, elapsed w 7, elapsed w 8}, Min {elapsed w 9, elapsed w 10, elapsed w 11}]"
    by (simp add: m measured_sources best_Min numeral_2_eq_2)
  show "length (stdout (snd (main w))) = 5"
    by (simp add: m measured_sources)
  show "\<exists>g. geo_mean (c_pow w) (min_times (snd (main w))) = Inr (FloatV g) \<and>
           last (stdout (snd (main w))) = ''Total (G.M): '' @ format_float g"
    using g by (simp add: m measured_sources total_line_def)
qed

text \<open>Claim C3 on a run where every file loads.\<close>

theorem fixed_sources_in_order_witness:
  "fst (main w0) = None \<and>
   trials (snd (main w0)) =
     [''../data/canada.json'', ''../data/canada.json'', ''../data/canada.json'',
      ''../data/citm_catalog.json'', ''../data/citm_catalog.json'', ''../data/citm_catalog.json'',
      ''../data/citylots.json'', ''../data/citylots.json'', ''../data/citylots.json'',
      ''../data/twitter.json'', ''../data/twitter.json'', ''../data/twitter.json''] \<and>
   min_times (snd (main w0)) = [1/4, 1, 4, 16] \<and>
   geo_mean (c_pow w0) [1/4, 1, 4, 16] = Inr (FloatV (Fin 2)) \<and>
   last (stdout (snd (main w0))) = ''Total (G.M): 2.000000''"
  using fixed_sources_in_order [of w0] by (simp add: main_w0 w0_c_pow aggregate_w0)




text \<open>Claim C5. When the file of one of the sources cannot be opened or read, the run ends with an uncaught exception and so with a non-zero status; no printed line starts with \<open>Total (G.M):\<close>; fewer than four lines were printed; and nothing recovers from the failure: the last timed execution of the run is one that raised, and what it raised is the exception the run ends with.\<close>

theorem missing_file_aborts:
  assumes "s \<in> set sources" and "open_read w (path s) = Inl e"
  shows "fst (main w) \<noteq> None \<and> exit_status (main w) = 1 \<and>
         (\<forall>l\<in>set (stdout (snd (main w))). \<not> prefix ''Total (G.M):'' l) \<and>
         length (stdout (snd (main w))) < length sources \<and>
         trials (snd (main w)) \<noteq> [] \<and>
         load_error w (last (trials (snd (main w)))) = fst (main w)"
proof -
  have "load_error w (path s) \<noteq> None"
    using assms(2) by (simp add: open_error_is_load_error)
  with assms(1) have "\<exists>x\<in>set sources. load_error w (path x) \<noteq> None" by blast
  from first_failure [OF this] obtain pre x post e' where
    d: "sources = pre @ x # post" and p: "\<forall>y\<in>set pre. load_error w (path y) = None"
    and f: "load_error w (path x) = Some e'" by blast
  have r: "main w = (Some e', (measured w pre init)\<lparr>trials := trials (measured w pre init) @ [path x]\<rparr>)"
    unfolding main_def d using p f by (rule run_fail)
  have sub: "set pre \<subseteq> set sources" by (auto simp: d)
  have lines: "\<forall>l\<in>set (stdout (snd (main w))). \<not> prefix ''Total (G.M):'' l"
  proof
    fix l assume "l \<in> set (stdout (snd (main w)))"
    then have "l \<in> set (stdout (measured w pre init))" by (simp add: r)
    from stdout_measured_lines [OF this] obtain y t where "y \<in> set pre" "l = source_line y t"
      by blast
    with sub show "\<not> prefix ''Total (G.M):'' l"
      using source_line_not_total [of y t] by auto
  qed
  have len: "length (stdout (snd (main w))) < length sources"
    by (simp add: r length_stdout_measured) (simp add: d)
  show ?thesis
    using lines len by (simp add: r exit_status_def f)
qed

text \<open>Claim C5 where \<open>citylots.json\<close> is missing and the other files load: two lines are printed, the run ends on the third source with \<open>FileNotFoundError\<close>.\<close>

theorem missing_file_aborts_witness:
  "''citylots'' \<in> set sources \<and> open_read w1 (path ''citylots'') = Inl FileNotFoundError \<and>
   fst (main w1) = Some FileNotFoundError \<and> exit_status (main w1) = 1 \<and>
   stdout (snd (main w1)) = [''canada 0.250000 seconds'', ''citm_catalog 1.000000 seconds''] \<and>
   last (trials (snd (main w1))) = ''../data/citylots.json''"
proof -
  have a: "''citylots'' \<in> set sources" by (simp add: sources_def)
  have b: "open_read w1 (path ''citylots'') = Inl FileNotFoundError"
    by (simp add: w1_def path_def)
  show ?thesis
    using a b missing_file_aborts [OF a b] by (simp add: main_w1)
qed

text \<open>Claim C6 says that the computed geometric mean of a sequence of positive minimum times is the same for every order of the sequence. In double-precision arithmetic it is not: of the four positive doubles \<open>2\<^sup>-\<^sup>6\<^sup>0\<^sup>0\<close>, \<open>2\<^sup>-\<^sup>6\<^sup>0\<^sup>0\<close>, \<open>2\<^sup>6\<^sup>0\<^sup>0\<close>, \<open>2\<^sup>6\<^sup>0\<^sup>0\<close> the first two multiply to zero, and the aggregate is 0.0; with the second and third exchanged no product underflows, and it is 1.0. The C library is not called in either case.\<close>

theorem ieee_reordering_counterexample:
  "mset [pw2 (- 600), pw2 (- 600), pw2 600, pw2 600] =
     mset [pw2 (- 600), pw2 600, pw2 (- 600), pw2 600] \<and>
   float_pos (pw2 (- 600)) \<and> float_pos (pw2 600) \<and>
   geo_mean_ieee [pw2 (- 600), pw2 (- 600), pw2 600, pw2 600] = Some (Inr (Fin 0)) \<and>
   geo_mean_ieee [pw2 (- 600), pw2 600, pw2 (- 600), pw2 600] = Some (Inr (Fin 1)) \<and>
   geo_mean correctly_rounded_pow [2 powr (- 600), 2 powr (- 600), 2 powr 600, 2 powr 600] =
     Inr (FloatV (Fin 0)) \<and>
   geo_mean correctly_rounded_pow [2 powr (- 600), 2 powr 600, 2 powr (- 600), 2 powr 600] =
     Inr (FloatV (Fin 1))"
proof -
  have a: "float_mul (pw2 (- 600)) (pw2 (- 600)) = Fin 0"
    by (rule float_mul_pw2_underflow) simp
  have b: "float_mul (pw2 (- 600)) (pw2 600) = pw2 0"
    using float_mul_pw2 [of "- 600" 600] by simp
  have c: "float_mul (pw2 0) (pw2 (- 600)) = pw2 (- 600)"
    using float_mul_pw2 [of 0 "- 600"] by simp
  have 1: "geo_mean_ieee [pw2 (- 600), pw2 (- 600), pw2 600, pw2 600] = Some (Inr (Fin 0))"
    by (simp add: geo_mean_ieee_four a float_mul_zero)
  have "float_mul (float_mul (float_mul (pw2 (- 600)) (pw2 600)) (pw2 (- 600))) (pw2 600) =
        float_mul (float_mul (pw2 0) (pw2 (- 600))) (pw2 600)"
    by (simp only: b)
  also have "\<dots> = float_mul (pw2 (- 600)) (pw2 600)"
    by (simp only: c)
  also have "\<dots> = pw2 0" by (rule b)
  also have "\<dots> = Fin 1" by (rule pw2_zero)
  finally have p:
    "float_mul (float_mul (float_mul (pw2 (- 600)) (pw2 600)) (pw2 (- 600))) (pw2 600) = Fin 1" .
  have 2: "geo_mean_ieee [pw2 (- 600), pw2 600, pw2 (- 600), pw2 600] = Some (Inr (Fin 1))"
    by (simp add: geo_mean_ieee_four p)
  have 3: "geo_mean correctly_rounded_pow
             [2 powr (- 600), 2 powr (- 600), 2 powr 600, 2 powr 600] = Inr (FloatV (Fin 0))"
    by (rule geo_mean_agrees) (use 1 in \<open>simp add: pw2_def\<close>)
  have 4: "geo_mean correctly_rounded_pow
             [2 powr (- 600), 2 powr 600, 2 powr (- 600), 2 powr 600] = Inr (FloatV (Fin 1))"
    by (rule geo_mean_agrees) (use 2 in \<open>simp add: pw2_def\<close>)
  have 5: "mset [pw2 (- 600), pw2 (- 600), pw2 600, pw2 600] =
             mset [pw2 (- 600), pw2 600, pw2 (- 600), pw2 600]"
    by simp
  show ?thesis
    by (intro conjI 1 2 3 4 5 float_pos_pw2)
qed

text \<open>Claim C6, amended. In exact arithmetic the aggregate does not depend on the order of its input: two lists with the same elements, each as often in one as in the other, have the same aggregate.\<close>

theorem geo_mean_permutation:
  assumes "mset ts = mset ts'"
  shows "geo_mean_exact ts = geo_mean_exact ts'"
proof (cases "ts = []")
  case True
  with assms show ?thesis by simp
next
  case False
  with assms have ne: "ts' \<noteq> []" by auto
  have "prod_mset (mset ts) = prod_mset (mset ts')" and "size (mset ts) = size (mset ts')"
    using assms by simp_all
  then have "prod_list ts = prod_list ts'" and "length ts = length ts'"
    by (simp_all add: prod_mset_prod_list)
  then show ?thesis
    using False ne by (simp add: geo_mean_exact_nonempty)
qed

text \<open>Claim C6, amended, on a list of four and one of its rearrangements.\<close>

theorem geo_mean_permutation_witness:
  "mset [1, 2, 3, 4 :: real] = mset [3, 1, 4, 2] \<and> geo_mean_exact [1, 2, 3, 4] = geo_mean_exact [3, 1, 4, 2]"
proof -
  have m: "mset [1, 2, 3, 4 :: real] = mset [3, 1, 4, 2]" by simp
  show ?thesis using m geo_mean_permutation [OF m] by simp
qed

text \<open>Claim C7 says that the aggregate of four equal positive values is that value exactly. In double-precision arithmetic it is not: the fourth power of the positive double \<open>2\<^sup>-\<^sup>3\<^sup>0\<^sup>0\<close> underflows to zero, and the aggregate is 0.0. The C library is not called.\<close>

theorem ieee_four_equal_counterexample:
  "float_pos (pw2 (- 300)) \<and> pw2 (- 300) \<noteq> Fin 0 \<and>
   geo_mean_ieee [pw2 (- 300), pw2 (- 300), pw2 (- 300), pw2 (- 300)] = Some (Inr (Fin 0)) \<and>
   geo_mean correctly_rounded_pow [2 powr (- 300), 2 powr (- 300), 2 powr (- 300), 2 powr (- 300)] =
     Inr (FloatV (Fin 0))"
proof -
  have "geo_mean correctly_rounded_pow
          [2 powr (- 300), 2 powr (- 300), 2 powr (- 300), 2 powr (- 300)] = Inr (FloatV (Fin 0))"
    by (rule geo_mean_agrees) (use four_equal_underflow in \<open>simp add: pw2_def\<close>)
  then show ?thesis
    by (intro conjI four_equal_underflow float_pos_pw2 pw2_nonzero)
qed

text \<open>Claim C7, amended. In exact arithmetic the aggregate of four equal positive values is that value. As the script computes it, in double precision, it need not be: the aggregate of four times \<open>2\<^sup>-\<^sup>3\<^sup>0\<^sup>0\<close> is 0.0, whatever the C library's \<open>pow\<close>.\<close>

theorem geo_mean_four_equal:
  assumes "0 < v"
  shows "geo_mean_exact [v, v, v, v] = Inr (PyFloat v) \<and>
         geo_mean cp [2 powr (- 300), 2 powr (- 300), 2 powr (- 300), 2 powr (- 300)] =
           Inr (FloatV (Fin 0))"
proof
  have "0 \<le> v * (v * (v * v))" using assms by simp
  then show "geo_mean_exact [v, v, v, v] = Inr (PyFloat v)"
    using assms by (simp add: geo_mean_exact_Cons pow_exact_nonneg fourth_root_of_fourth_power)
  have "geo_mean_ieee (map Fin [2 powr (- 300), 2 powr (- 300), 2 powr (- 300), 2 powr (- 300)]) =
          Some (Inr (Fin 0))"
    using four_equal_underflow by (simp add: pw2_def)
  then show "geo_mean cp [2 powr (- 300), 2 powr (- 300), 2 powr (- 300), 2 powr (- 300)] =
           Inr (FloatV (Fin 0))"
    by (rule geo_mean_agrees)
qed

text \<open>Claim C7, amended, at the value 2 and with a correctly rounded \<open>pow\<close>.\<close>

theorem geo_mean_four_equal_witness:
  "(0::real) < 2 \<and> geo_mean_exact [2, 2, 2, 2] = Inr (PyFloat 2) \<and>
   geo_mean correctly_rounded_pow
     [2 powr (- 300), 2 powr (- 300), 2 powr (- 300), 2 powr (- 300)] = Inr (FloatV (Fin 0))"
  using geo_mean_four_equal [of 2 correctly_rounded_pow] by simp

text \<open>Claim C8. The aggregate of a single positive value is that value: in exact arithmetic; and as the script computes it, where no product is taken, the exponent is 1.0 and the aggregate is that value whenever the C library's \<open>pow\<close> returns its first argument at the exponent 1.0, as a correctly rounded \<open>pow\<close> does.\<close>

theorem geo_mean_single:
  assumes "0 < v"
  shows "geo_mean_exact [v] = Inr (PyFloat v) \<and>
         (cp v 1 = Inr (Fin v) \<longrightarrow> geo_mean cp [v] = Inr (FloatV (Fin v)))"
  using assms by (simp add: geo_mean_exact_Cons pow_exact_def geo_mean_one)

text \<open>Claim C8 at the value 3, with a correctly rounded \<open>pow\<close>.\<close>

theorem geo_mean_single_witness:
  "(0::real) < 3 \<and> geo_mean_exact [3] = Inr (PyFloat 3) \<and>
   correctly_rounded_pow 3 1 = Inr (Fin 3) \<and>
   geo_mean correctly_rounded_pow [3] = Inr (FloatV (Fin 3))"
  using geo_mean_single [of 3 correctly_rounded_pow]
  by (simp add: correctly_rounded_pow_def round_double_three)

text \<open>Claim C9 says that a minimum time of exactly zero makes the computation give, without raising, a complex or undefined result. On the minimum times 0, 1, 1, 1 it gives the float zero: in exact arithmetic, and in double precision, where the C library is not called.\<close>

theorem zero_minimum_not_complex_counterexample:
  "\<not> silently_complex (geo_mean_exact [0, 1, 1, 1]) \<and>
   geo_mean_exact [0, 1, 1, 1] = Inr (PyFloat 0) \<and>
   geo_mean_ieee [Fin 0, Fin 1, Fin 1, Fin 1] = Some (Inr (Fin 0)) \<and>
   \<not> complex_or_nan (geo_mean correctly_rounded_pow [0, 1, 1, 1]) \<and>
   geo_mean correctly_rounded_pow [0, 1, 1, 1] = Inr (FloatV (Fin 0))"
proof -
  have a: "geo_mean_exact [0, 1, 1, 1] = Inr (PyFloat 0)"
    by (simp add: geo_mean_exact_Cons pow_exact_def)
  have b: "geo_mean_ieee [Fin 0, Fin 1, Fin 1, Fin 1] = Some (Inr (Fin 0))"
    by (simp add: geo_mean_ieee_four round_double_zero)
  have c: "geo_mean correctly_rounded_pow [0, 1, 1, 1] = Inr (FloatV (Fin 0))"
    by (simp add: geo_mean_four round_double_zero)
  show ?thesis
    by (simp add: a b c)
qed

text \<open>Claim C9, amended. When one of the four minimum times is exactly zero, the computation, in double precision, raises nothing and gives a float, never a complex number: 0.0, printed as \<open>0.000000\<close>; or a NaN, printed as \<open>nan\<close>, when the product of the minimum times before the first zero has overflowed to an infinity. This holds whatever the other minimum times and whatever the C library's \<open>pow\<close>.\<close>

theorem zero_minimum_gives_zero:
  assumes "length ts = 4" and "0 \<in> set ts"
  shows "geo_mean cp ts =
           Inr (FloatV (if overflowed (takeWhile (\<lambda>t. t \<noteq> 0) ts) then NaN else Fin 0)) \<and>
         format_value (FloatV (Fin 0)) = Inr ''0.000000'' \<and>
         format_value (FloatV NaN) = Inr ''nan''"
proof (intro conjI)
  show "geo_mean cp ts =
           Inr (FloatV (if overflowed (takeWhile (\<lambda>t. t \<noteq> 0) ts) then NaN else Fin 0))"
    unfolding geo_mean_of_four [OF assms(1)] product_with_zero [OF assms(2)] by simp
  show "format_value (FloatV (Fin 0)) = Inr ''0.000000''"
    by (simp add: format_eval)
  show "format_value (FloatV NaN) = Inr ''nan''"
    by simp
qed

text \<open>Claim C9, amended, on the minimum times 0, 1, 1, 1, which give 0.0, and on \<open>2\<^sup>6\<^sup>0\<^sup>0\<close>, \<open>2\<^sup>6\<^sup>0\<^sup>0\<close>, 0, 1, which give a NaN.\<close>

theorem zero_minimum_gives_zero_witness:
  "length [0, 1, 1, 1 :: real] = 4 \<and> (0::real) \<in> set [0, 1, 1, 1] \<and>
   geo_mean correctly_rounded_pow [0, 1, 1, 1] = Inr (FloatV (Fin 0)) \<and>
   length [2 powr 600, 2 powr 600, 0, 1 :: real] = 4 \<and>
   (0::real) \<in> set [2 powr 600, 2 powr 600, 0, 1] \<and>
   geo_mean correctly_rounded_pow [2 powr 600, 2 powr 600, 0, 1] = Inr (FloatV NaN)"
proof -
  have a: "\<not> overflowed []" by (simp add: overflowed_def)
  have "geo_mean correctly_rounded_pow [0, 1, 1, 1] = Inr (FloatV (Fin 0))"
    using zero_minimum_gives_zero [of "[0, 1, 1, 1]" correctly_rounded_pow] a by simp
  moreover have "geo_mean correctly_rounded_pow [2 powr 600, 2 powr 600, 0, 1] = Inr (FloatV NaN)"
    using zero_minimum_gives_zero [of "[2 powr 600, 2 powr 600, 0, 1]" correctly_rounded_pow]
      overflowed_big by simp
  ultimately show ?thesis by simp
qed

text \<open>Claim C10. On an empty list of minimum times the aggregate raises, in double precision as in exact arithmetic: \<open>reduce\<close> with no initial value has nothing to start from. The script run on no sources ends with that exception uncaught and nothing printed.\<close>

theorem empty_min_times_raise:
  "geo_mean cp [] = Inl TypeError \<and>
   geo_mean_exact [] = Inl TypeError \<and> run w [] = (Some TypeError, init) \<and> stdout init = []"
  by (simp add: geo_mean_def geo_mean_exact_def run_def init_def)

end
